theory Spec2Isabelle
  imports Complex_Main "HOL-Library.Sublist"
begin

section \<open>HyperDrive mock API: the data model\<close>

text \<open>
  The endpoints of \<^verbatim>\<open>backend/main.py\<close> return Python dicts and lists that the
  framework serialises to JSON. A dict literal is an association list in the order the
  source writes its keys; a Python \<^verbatim>\<open>float\<close> is the real number its double denotes and a
  Python \<^verbatim>\<open>int\<close> is an unbounded integer.
\<close>

datatype json =
    JNull
  | JBool bool
  | JInt int
  | JFloat real
  | JStr string
  | JList "json list"
  | JObj "(string \<times> json) list"

type_synonym dict = "(string \<times> json) list"

text \<open>
  A Python \<^verbatim>\<open>str\<close> is a sequence of Unicode code points and \<^verbatim>\<open>ord\<close> returns the
  code point of a character, so a job identifier is a list of code points.
\<close>

type_synonym codepoint = nat
type_synonym pystr = "codepoint list"

definition ord :: "codepoint \<Rightarrow> int" where
  "ord c = int c"

text \<open>\<^verbatim>\<open>sum(iterable)\<close> starts at 0 and adds the items from left to right.\<close>

definition py_sum :: "int list \<Rightarrow> int" where
  "py_sum xs = foldl (+) 0 xs"

text \<open>\<^verbatim>\<open>dict[key]\<close> on an association list, and the keys in insertion order.\<close>

definition lookup :: "dict \<Rightarrow> string \<Rightarrow> json option" where
  "lookup d k = map_of d k"

definition keys :: "dict \<Rightarrow> string list" where
  "keys d = map fst d"

subsection \<open>Formatting an integer, as an f-string does\<close>

definition digit_char :: "nat \<Rightarrow> char" where
  "digit_char d = ''0123456789'' ! d"

fun str_nat :: "nat \<Rightarrow> string" where
  "str_nat n = (if n < 10 then [digit_char n] else str_nat (n div 10) @ [digit_char (n mod 10)])"

declare str_nat.simps [simp del]

definition str_int :: "int \<Rightarrow> string" where
  "str_int i = (if i < 0 then CHR ''-'' # str_nat (nat (- i)) else str_nat (nat i))"

subsection \<open>Floating-point arithmetic\<close>

text \<open>
  A Python \<^verbatim>\<open>float\<close> is an IEEE 754 double: 53 significant bits. An operation on doubles
  returns the double nearest to the exact result, a tie going to the even significand,
  and a literal such as \<^verbatim>\<open>0.08\<close> denotes the double nearest to the decimal. The exponent
  range is left unbounded: the products, sums and rounded values of the endpoints are far
  from overflow and from the subnormal range.
\<close>

definition round_half_even :: "real \<Rightarrow> int" where
  "round_half_even y =
     (let f = \<lfloor>y\<rfloor>; d = y - of_int f
      in if d < 1/2 then f else if 1/2 < d then f + 1 else if even f then f else f + 1)"

text \<open>The binary exponent of a positive number: \<open>2 ^ expo x \<le> x < 2 ^ (expo x + 1)\<close>.\<close>

function expo :: "real \<Rightarrow> int" where
  "expo x =
     (if x \<le> 0 then 0
      else if 2 \<le> x then expo (x / 2) + 1
      else if x < 1 then expo (x * 2) - 1
      else 0)"
  by pat_completeness auto
termination
proof (relation "measure (\<lambda>x. if 1 \<le> x then nat \<lfloor>x\<rfloor> else nat \<lceil>1 / x\<rceil> + 1)")
  show "wf (measure (\<lambda>x::real. if 1 \<le> x then nat \<lfloor>x\<rfloor> else nat \<lceil>1 / x\<rceil> + 1))"
    by simp
next
  fix x :: real
  assume "\<not> x \<le> 0" "2 \<le> x"
  then have "\<lfloor>x / 2\<rfloor> < \<lfloor>x\<rfloor>" "0 < \<lfloor>x\<rfloor>" by linarith+
  with \<open>2 \<le> x\<close>
  show "(x / 2, x) \<in> measure (\<lambda>x. if 1 \<le> x then nat \<lfloor>x\<rfloor> else nat \<lceil>1 / x\<rceil> + 1)"
    by simp
next
  fix x :: real
  assume x: "\<not> x \<le> 0" "\<not> 2 \<le> x" "x < 1"
  then have inv: "1 < 1 / x" by simp
  show "(x * 2, x) \<in> measure (\<lambda>x. if 1 \<le> x then nat \<lfloor>x\<rfloor> else nat \<lceil>1 / x\<rceil> + 1)"
  proof (cases "1 \<le> x * 2")
    case True
    then have "\<lfloor>x * 2\<rfloor> = 1" using x by linarith
    moreover have "2 \<le> \<lceil>1 / x\<rceil>" using inv by linarith
    ultimately show ?thesis using True x by simp
  next
    case False
    then have "2 < 1 / x" using x by (simp add: field_simps)
    then have "1 / x / 2 \<le> 1 / x - 1" by simp
    then have "\<lceil>1 / x / 2\<rceil> \<le> \<lceil>1 / x - 1\<rceil>" by (rule ceiling_mono)
    then have "\<lceil>1 / (x * 2)\<rceil> < \<lceil>1 / x\<rceil>" by (simp add: field_simps)
    moreover have "0 < \<lceil>1 / x\<rceil>" using inv by linarith
    ultimately show ?thesis using False x by simp
  qed
qed

declare expo.simps [simp del]

text \<open>
  The double nearest to a real number: the number is rounded to a multiple of the unit
  in the last place of its binade, \<open>2 ^ (expo \<bar>x\<bar> - 52)\<close>, a tie going to the even
  multiple.
\<close>

definition fl :: "real \<Rightarrow> real" where
  "fl x =
     (if x = 0 then 0
      else (let q = 2 powi (expo \<bar>x\<bar> - 52)
            in sgn x * (of_int (round_half_even (\<bar>x\<bar> / q)) * q)))"

text \<open>
  \<^verbatim>\<open>round(x, 3)\<close> takes the multiple of \<open>1/1000\<close> nearest to the exact value of \<open>x\<close>, a
  tie going to the even multiple, and returns the double nearest to it.
\<close>

definition py_round3 :: "real \<Rightarrow> real" where
  "py_round3 x = fl (of_int (round_half_even (x * 1000)) / 1000)"

subsection \<open>The seeded pseudo-random stream\<close>

text \<open>
  \<^verbatim>\<open>random.Random\<close> is the standard library's generator and not code of this
  repository. It is a parameter of the model: a state type \<open>'s\<close> with the four operations
  the endpoints call. Each operation returns the value drawn and the state after the draw.
\<close>

record 's prng =
  Random :: "int \<Rightarrow> 's"
  random :: "'s \<Rightarrow> real \<times> 's"
  randint :: "'s \<Rightarrow> int \<Rightarrow> int \<Rightarrow> int \<times> 's"
  choice :: "'s \<Rightarrow> string list \<Rightarrow> string \<times> 's"

text \<open>
  What the library documents of the three draws: \<^verbatim>\<open>random()\<close> is in \<open>[0, 1)\<close>,
  \<^verbatim>\<open>randint(a, b)\<close> is in \<open>[a, b]\<close>, and \<^verbatim>\<open>choice(seq)\<close> is an element of a
  non-empty \<^verbatim>\<open>seq\<close>.
\<close>

definition prng_contract :: "'s prng \<Rightarrow> bool" where
  "prng_contract G \<longleftrightarrow>
     (\<forall>s. 0 \<le> fst (random G s) \<and> fst (random G s) < 1) \<and>
     (\<forall>s a b. a \<le> b \<longrightarrow> a \<le> fst (randint G s a b) \<and> fst (randint G s a b) \<le> b) \<and>
     (\<forall>s xs. xs \<noteq> [] \<longrightarrow> fst (choice G s xs) \<in> set xs)"

section \<open>Seed derivation\<close>

text \<open>Line 23: \<^verbatim>\<open>seed = sum(ord(c) for c in job_id)\<close>.\<close>

definition sensitivity_seed :: "pystr \<Rightarrow> int" where
  "sensitivity_seed job_id = py_sum (map ord job_id)"

text \<open>Line 46: \<^verbatim>\<open>seed = sum(ord(c) for c in job_id) * 7\<close>.\<close>

definition graph_seed :: "pystr \<Rightarrow> int" where
  "graph_seed job_id = py_sum (map ord job_id) * 7"

text \<open>
  The specification's wording of seed derivation, to compare the code with: the
  multiplier times the sum of the character codes of the identifier.
\<close>

definition spec_derive_seed :: "int \<Rightarrow> pystr \<Rightarrow> int" where
  "spec_derive_seed m job_id = m * (\<Sum>c\<leftarrow>job_id. int c)"

section \<open>The sensitivity endpoint\<close>

definition layer_types :: "string list" where
  "layer_types = [''Conv'', ''Attn'', ''Dense'', ''LayerNorm'']"

text \<open>
  One iteration of the loop of lines 27 to 37, on the stream and the list built so far.
  The draws are made in the source's order: the layer type, the base error, the spike
  test, and the spike magnitude only when the test succeeds. Each product and the sum
  are rounded to a double, as the operations on floats are.
\<close>

definition sensitivity_step :: "'s prng \<Rightarrow> 's \<times> dict list \<Rightarrow> int \<Rightarrow> 's \<times> dict list" where
  "sensitivity_step G st i =
     (let (rnd, layers) = st;
          (layer_type, r1) = choice G rnd layer_types;
          name = layer_type @ ''_'' @ str_int i;
          (u, r2) = random G r1;
          base = fl (u * fl 0.08);
          (v, r3) = random G r2;
          (err, r4) =
            (if v < fl 0.08
             then (let (w, r) = random G r3 in (py_round3 (fl (base + fl (w * fl 0.4))), r))
             else (py_round3 base, r3))
      in (r4, layers @ [[(''layer'', JStr name), (''error'', JFloat err)]]))"

definition get_sensitivity :: "'s prng \<Rightarrow> pystr \<Rightarrow> dict list" where
  "get_sensitivity G job_id =
     (let seed = sensitivity_seed job_id;
          rnd = Random G seed;
          (num_layers, rnd1) = randint G rnd 6 12
      in snd (foldl (sensitivity_step G) (rnd1, []) [1..num_layers]))"

text \<open>Reading a record of the response: its error lies between two bounds.\<close>

definition error_within :: "real \<Rightarrow> real \<Rightarrow> dict \<Rightarrow> bool" where
  "error_within lo hi d =
     (case lookup d ''error'' of Some (JFloat e) \<Rightarrow> lo \<le> e \<and> e \<le> hi | _ \<Rightarrow> False)"

text \<open>
  Section 4.2 of the specification, steps 2a to 2d, read off the stream: the draw of the
  layer type, the base draw \<open>u\<close>, the spike test \<open>v\<close> and, only when \<open>v\<close> is below 0.08, the
  spike draw \<open>w\<close>. The error of the layer is the base value \<open>u \<times> 0.08\<close> rounded to three
  places, or the sum of the base value and the spike \<open>w \<times> 0.4\<close> rounded to three places,
  with nothing applied after the rounding. \<open>spec_layer_error\<close> gives the error of one layer
  and the stream after its draws, \<open>spec_errors\<close> the errors of \<open>n\<close> layers in a row.
\<close>

definition spec_layer_error :: "'s prng \<Rightarrow> 's \<Rightarrow> real \<times> 's" where
  "spec_layer_error G rnd =
     (let r1 = snd (choice G rnd layer_types);
          u = fst (random G r1); r2 = snd (random G r1);
          v = fst (random G r2); r3 = snd (random G r2);
          w = fst (random G r3); r4 = snd (random G r3)
      in if v < fl 0.08
         then (py_round3 (fl (fl (u * fl 0.08) + fl (w * fl 0.4))), r4)
         else (py_round3 (fl (u * fl 0.08)), r3))"

fun spec_errors :: "'s prng \<Rightarrow> 's \<Rightarrow> nat \<Rightarrow> real list" where
  "spec_errors G rnd 0 = []"
| "spec_errors G rnd (Suc n) =
     fst (spec_layer_error G rnd) # spec_errors G (snd (spec_layer_error G rnd)) n"

section \<open>The graph endpoint\<close>

definition layer_names :: "string list" where
  "layer_names = [''Input'', ''Conv_1'', ''Conv_2'', ''Pool'', ''Attn_1'', ''Dense'', ''Output'']"

definition x_start :: int where "x_start = 50"
definition y_start :: int where "y_start = 100"
definition x_gap :: int where "x_gap = 220"

text \<open>\<^verbatim>\<open>enumerate(xs)\<close>: the items paired with their indices, counted from 0.\<close>

definition py_enumerate :: "'a list \<Rightarrow> (int \<times> 'a) list" where
  "py_enumerate xs = map (\<lambda>(i, x). (int i, x)) (List.enumerate 0 xs)"

text \<open>The node of lines 65 to 70 and the edge of lines 72 to 77, as the dicts the source writes.\<close>

definition node_dict :: "string \<Rightarrow> string \<Rightarrow> bool \<Rightarrow> int \<Rightarrow> int \<Rightarrow> dict" where
  "node_dict node_id lname fused x y =
     [(''id'', JStr node_id),
      (''data'', JObj [(''label'', JStr lname), (''fused'', JBool fused)]),
      (''position'', JObj [(''x'', JInt x), (''y'', JInt y)]),
      (''style'', JObj [])]"

definition edge_dict :: "int \<Rightarrow> string \<Rightarrow> dict" where
  "edge_dict idx node_id =
     [(''id'', JStr (''e'' @ str_int (idx - 1))),
      (''source'', JStr (''n'' @ str_int (idx - 1))),
      (''target'', JStr node_id),
      (''animated'', JBool False)]"

text \<open>
  One iteration of the loop of lines 57 to 77, on the stream, the nodes and the edges
  built so far. \<^verbatim>\<open>"Conv" in lname and rnd.random() < 0.25\<close> evaluates its second operand,
  and so draws from the stream, only when the first is true.
\<close>

definition graph_step ::
  "'s prng \<Rightarrow> 's \<times> dict list \<times> dict list \<Rightarrow> int \<times> string \<Rightarrow> 's \<times> dict list \<times> dict list" where
  "graph_step G st item =
     (let (rnd, nodes, edges) = st;
          (idx, lname) = item;
          node_id = ''n'' @ str_int idx;
          x = x_start + idx * x_gap;
          y = y_start + (idx mod 2) * 30;
          (fused, rnd') =
            (if sublist ''Conv'' lname
             then (let (u, r) = random G rnd in (if u < 0.25 then True else False, r))
             else (False, rnd));
          nodes' = nodes @ [node_dict node_id lname fused x y];
          edges' = (if idx > 0 then edges @ [edge_dict idx node_id] else edges)
      in (rnd', nodes', edges'))"

definition graph_loop :: "'s prng \<Rightarrow> pystr \<Rightarrow> 's \<times> dict list \<times> dict list" where
  "graph_loop G job_id =
     (let seed = graph_seed job_id;
          rnd = Random G seed
      in foldl (graph_step G) (rnd, [], []) (py_enumerate layer_names))"

definition graph_nodes :: "'s prng \<Rightarrow> pystr \<Rightarrow> dict list" where
  "graph_nodes G job_id = fst (snd (graph_loop G job_id))"

definition graph_edges :: "'s prng \<Rightarrow> pystr \<Rightarrow> dict list" where
  "graph_edges G job_id = snd (snd (graph_loop G job_id))"

definition get_graph :: "'s prng \<Rightarrow> pystr \<Rightarrow> dict" where
  "get_graph G job_id =
     [(''nodes'', JList (map JObj (graph_nodes G job_id))),
      (''edges'', JList (map JObj (graph_edges G job_id)))]"

text \<open>Reading a node of the response: its label, its fused flag and its x-coordinate.\<close>

definition node_label :: "dict \<Rightarrow> json option" where
  "node_label d = (case lookup d ''data'' of Some (JObj dd) \<Rightarrow> lookup dd ''label'' | _ \<Rightarrow> None)"

definition node_fused :: "dict \<Rightarrow> json option" where
  "node_fused d = (case lookup d ''data'' of Some (JObj dd) \<Rightarrow> lookup dd ''fused'' | _ \<Rightarrow> None)"

definition node_x :: "dict \<Rightarrow> json option" where
  "node_x d = (case lookup d ''position'' of Some (JObj p) \<Rightarrow> lookup p ''x'' | _ \<Rightarrow> None)"

text \<open>A node without the \<^verbatim>\<open>fused\<close> entry of its \<^verbatim>\<open>data\<close>: every other field is kept.\<close>

fun drop_fused :: "string \<times> json \<Rightarrow> string \<times> json" where
  "drop_fused (k, JObj dd) =
     (if k = ''data'' then (k, JObj (filter (\<lambda>e. fst e \<noteq> ''fused'') dd)) else (k, JObj dd))"
| "drop_fused (k, v) = (k, v)"

definition without_fused :: "dict \<Rightarrow> dict" where
  "without_fused d = map drop_fused d"

text \<open>
  The specification's wording of an edge, to compare the code with: exactly the keys
  \<^verbatim>\<open>id\<close>, \<^verbatim>\<open>source\<close> and \<^verbatim>\<open>target\<close>, each a string.
\<close>

definition is_string :: "json option \<Rightarrow> bool" where
  "is_string v = (case v of Some (JStr _) \<Rightarrow> True | _ \<Rightarrow> False)"

definition spec_edge_shape :: "dict \<Rightarrow> bool" where
  "spec_edge_shape e \<longleftrightarrow>
     set (keys e) = {''id'', ''source'', ''target''} \<and>
     is_string (lookup e ''id'') \<and> is_string (lookup e ''source'') \<and> is_string (lookup e ''target'')"

section \<open>The upload endpoint\<close>

text \<open>
  What the endpoint reads of an uploaded file: its name and its declared content type,
  either of which the framework may leave as \<^verbatim>\<open>None\<close>.
\<close>

record upload_file =
  filename :: "string option"
  content_type :: "string option"

definition json_of_optional :: "string option \<Rightarrow> json" where
  "json_of_optional v = (case v of None \<Rightarrow> JNull | Some s \<Rightarrow> JStr s)"

definition upload :: "upload_file \<Rightarrow> upload_file option \<Rightarrow> string option \<Rightarrow> dict" where
  "upload file calibration_file metadata =
     (let file_info =
            JObj [(''filename'', json_of_optional (filename file)),
                  (''content_type'', json_of_optional (content_type file))];
          calib_info =
            (case calibration_file of
               None \<Rightarrow> JNull
             | Some c \<Rightarrow>
                 JObj [(''filename'', json_of_optional (filename c)),
                       (''content_type'', json_of_optional (content_type c))])
      in [(''status'', JStr ''ok''), (''file'', file_info),
          (''calibration_file'', calib_info), (''metadata'', json_of_optional metadata)])"

section \<open>A small generator that meets the contract\<close>

text \<open>
  A linear congruential generator over the naturals below \<open>2^16\<close>: one instance of
  the stream parameter, used to run the endpoints on concrete identifiers.
\<close>

definition lcg_next :: "nat \<Rightarrow> nat" where
  "lcg_next s = (75 * s + 74) mod 65536"

definition lcg :: "nat prng" where
  "lcg = \<lparr>Random = (\<lambda>seed. nat \<bar>seed\<bar> mod 65536),
          random = (\<lambda>s. (real (lcg_next s) / 65536, lcg_next s)),
          randint = (\<lambda>s a b. (a + int (lcg_next s) mod (b - a + 1), lcg_next s)),
          choice = (\<lambda>s xs. (xs ! (lcg_next s mod length xs), lcg_next s))\<rparr>"

section \<open>Basic facts\<close>

subsection \<open>Sums, rounding and the generator\<close>

lemma foldl_add_sum_list: "foldl (+) a xs = a + sum_list (xs :: int list)"
  by (induction xs arbitrary: a) simp_all

lemma py_sum_sum_list: "py_sum xs = sum_list xs"
  by (simp add: py_sum_def foldl_add_sum_list)

lemma char_code_sum: "py_sum (map ord job_id) = (\<Sum>c\<leftarrow>job_id. int c)"
proof -
  have "ord = int" by (rule ext) (simp add: ord_def)
  then show ?thesis by (simp add: py_sum_sum_list)
qed

lemma py_sum_Nil: "py_sum [] = 0"
  by (simp add: py_sum_def)

lemma lcg_randint_range:
  assumes "a \<le> (b::int)"
  shows "a \<le> a + int n mod (b - a + 1) \<and> a + int n mod (b - a + 1) \<le> b"
proof -
  have pos: "0 < b - a + 1" using assms by simp
  show ?thesis
    using pos_mod_sign [OF pos, of "int n"] pos_mod_bound [OF pos, of "int n"] by linarith
qed

lemma lcg_contract: "prng_contract lcg"
  unfolding prng_contract_def lcg_def
  by (auto simp: lcg_next_def lcg_randint_range)

subsection \<open>Rounding to a double\<close>

lemma round_half_even_ge:
  assumes "of_int a \<le> y"
  shows "a \<le> round_half_even y"
proof -
  have "a \<le> \<lfloor>y\<rfloor>" using assms by (simp add: le_floor_iff)
  then show ?thesis by (auto simp: round_half_even_def Let_def)
qed

lemma round_half_even_le_half:
  assumes "y < of_int b + 1/2"
  shows "round_half_even y \<le> b"
proof (cases "\<lfloor>y\<rfloor> < b")
  case True
  then show ?thesis by (auto simp: round_half_even_def Let_def)
next
  case False
  have "\<lfloor>y\<rfloor> \<le> b" using assms by linarith
  with False have eq: "\<lfloor>y\<rfloor> = b" by simp
  then have "y - of_int \<lfloor>y\<rfloor> < 1/2" using assms by simp
  then show ?thesis using eq by (simp add: round_half_even_def Let_def)
qed

lemma round_half_even_le:
  assumes "y \<le> of_int b"
  shows "round_half_even y \<le> b"
  using assms by (intro round_half_even_le_half) simp

lemma expo_bounds:
  "0 < x \<Longrightarrow> 2 powi expo x \<le> x \<and> x < 2 powi (expo x + 1)"
proof (induction x rule: expo.induct)
  case (1 x)
  show ?case
  proof (cases "2 \<le> x")
    case True
    with 1 have ih: "2 powi expo (x / 2) \<le> x / 2 \<and> x / 2 < 2 powi (expo (x / 2) + 1)" by simp
    have e: "expo x = expo (x / 2) + 1" using True 1(3) by (simp add: expo.simps [of x])
    show ?thesis using ih unfolding e by (simp add: power_int_add field_simps)
  next
    case False
    show ?thesis
    proof (cases "x < 1")
      case True
      with 1 False have ih: "2 powi expo (x * 2) \<le> x * 2 \<and> x * 2 < 2 powi (expo (x * 2) + 1)"
        by simp
      have e: "expo x = expo (x * 2) - 1" using True False 1(3) by (simp add: expo.simps [of x])
      show ?thesis using ih unfolding e by (simp add: power_int_add power_int_diff field_simps)
    next
      case g: False
      have e: "expo x = 0" using g False 1(3) by (simp add: expo.simps [of x])
      show ?thesis using g False unfolding e by simp
    qed
  qed
qed

lemma pow2_less_imp_less:
  assumes "(2::real) powi a < 2 powi b"
  shows "a < b"
proof (rule ccontr)
  assume "\<not> a < b"
  then have "b \<le> a" by simp
  then have "(2::real) powi b \<le> 2 powi a" by (intro power_int_increasing) simp_all
  with assms show False by simp
qed

lemma expo_unique:
  assumes "2 powi e \<le> x" and "x < 2 powi (e + 1)"
  shows "expo x = e"
proof -
  have "(0::real) < 2 powi e" by simp
  with assms(1) have pos: "0 < x" by linarith
  from expo_bounds [OF pos] have b: "2 powi expo x \<le> x" "x < 2 powi (expo x + 1)" by simp_all
  have "(2::real) powi e < 2 powi (expo x + 1)" using assms(1) b(2) by linarith
  then have 1: "e < expo x + 1" by (rule pow2_less_imp_less)
  have "(2::real) powi expo x < 2 powi (e + 1)" using assms(2) b(1) by linarith
  then have 2: "expo x < e + 1" by (rule pow2_less_imp_less)
  from 1 2 show ?thesis by simp
qed

lemma fl_zero: "fl 0 = 0"
  by (simp add: fl_def)

lemma fl_pos_eq:
  assumes "0 < x"
  shows "fl x = of_int (round_half_even (x / 2 powi (expo x - 52))) * 2 powi (expo x - 52)"
proof -
  have "\<bar>x\<bar> = x" "sgn x = 1" "x \<noteq> 0" using assms by simp_all
  then show ?thesis unfolding fl_def Let_def by simp
qed

lemma fl_nonneg:
  assumes "0 \<le> x"
  shows "0 \<le> fl x"
proof (cases "x = 0")
  case True
  then show ?thesis by (simp add: fl_zero)
next
  case False
  with assms have pos: "0 < x" by simp
  define q :: real where "q = 2 powi (expo x - 52)"
  have q: "0 < q" by (simp add: q_def)
  have "of_int 0 \<le> x / q" using q pos by simp
  then have "0 \<le> round_half_even (x / q)" by (rule round_half_even_ge)
  then have "0 \<le> (of_int (round_half_even (x / q)) :: real) * q" using q by simp
  then show ?thesis unfolding fl_pos_eq [OF pos] q_def .
qed

lemma fl_le_double:
  assumes pos: "0 < x" and le: "x \<le> of_int M * 2 powi k" and M: "M < 2 ^ 53"
  shows "fl x \<le> of_int M * 2 powi k"
proof -
  define e where "e = expo x"
  define q :: real where "q = 2 powi (e - 52)"
  have q: "0 < q" by (simp add: q_def)
  from expo_bounds [OF pos] have lo: "2 powi e \<le> x" by (simp add: e_def)
  have "(of_int M :: real) < of_int (2 ^ 53)" using M by (simp only: of_int_less_iff)
  then have M': "(of_int M :: real) < 2 ^ 53" by simp
  have "of_int M * (2::real) powi k < 2 ^ 53 * 2 powi k"
    using M' by (intro mult_strict_right_mono) simp_all
  also have "\<dots> = 2 powi (k + 53)" by (simp add: power_int_add)
  finally have "(2::real) powi e < 2 powi (k + 53)" using lo le by linarith
  then have "e < k + 53" by (rule pow2_less_imp_less)
  then have n: "0 \<le> k - (e - 52)" by simp
  have "(2::real) powi k = 2 powi ((k - (e - 52)) + (e - 52))" by simp
  also have "\<dots> = 2 powi (k - (e - 52)) * q"
    unfolding q_def by (rule power_int_add) simp
  also have "(2::real) powi (k - (e - 52)) = of_int (2 ^ nat (k - (e - 52)))"
    using n by (simp add: power_int_def)
  finally have k: "(2::real) powi k = of_int (2 ^ nat (k - (e - 52))) * q" .
  have "x \<le> of_int (M * 2 ^ nat (k - (e - 52))) * q"
    using le unfolding k by (simp add: mult.assoc)
  then have "x / q \<le> of_int (M * 2 ^ nat (k - (e - 52)))"
    using q by (simp add: pos_divide_le_eq)
  then have "round_half_even (x / q) \<le> M * 2 ^ nat (k - (e - 52))" by (rule round_half_even_le)
  then have "(of_int (round_half_even (x / q)) :: real) \<le> of_int (M * 2 ^ nat (k - (e - 52)))"
    by (simp only: of_int_le_iff)
  then have "of_int (round_half_even (x / q)) * q \<le> of_int (M * 2 ^ nat (k - (e - 52))) * q"
    using q by (simp only: mult_le_cancel_right_pos)
  also have "\<dots> = of_int M * 2 powi k" unfolding k by (simp add: mult.assoc)
  finally show ?thesis unfolding fl_pos_eq [OF pos] q_def e_def .
qed

lemma fl_008: "fl 0.08 = 5764607523034235 * 2 powi (-56)"
proof -
  have e: "expo (0.08 :: real) = -4"
    by (rule expo_unique) (simp_all add: power_int_def power_divide)
  have "(0::real) < 0.08" by simp
  from fl_pos_eq [OF this] show ?thesis
    unfolding e by (simp add: round_half_even_def power_int_def power_divide)
qed

lemma fl_04: "fl 0.4 = 7205759403792794 * 2 powi (-54)"
proof -
  have e: "expo (0.4 :: real) = -2"
    by (rule expo_unique) (simp_all add: power_int_def power_divide)
  have "(0::real) < 0.4" by simp
  from fl_pos_eq [OF this] show ?thesis
    unfolding e by (simp add: round_half_even_def power_int_def power_divide)
qed

lemma fl_048: "fl 0.48 = 8646911284551352 * 2 powi (-54)"
proof -
  have e: "expo (0.48 :: real) = -2"
    by (rule expo_unique) (simp_all add: power_int_def power_divide)
  have "(0::real) < 0.48" by simp
  from fl_pos_eq [OF this] show ?thesis
    unfolding e by (simp add: round_half_even_def power_int_def power_divide)
qed

lemma fl_scaled_range:
  assumes u: "0 \<le> u" "u < 1" and M: "0 < M" "M < 2 ^ 53"
  shows "0 \<le> fl (u * (of_int M * 2 powi k)) \<and> fl (u * (of_int M * 2 powi k)) \<le> of_int M * 2 powi k"
proof -
  have c: "(0::real) < of_int M * 2 powi k" using M(1) by simp
  have lo: "0 \<le> fl (u * (of_int M * 2 powi k))" using u(1) c by (intro fl_nonneg) simp
  have hi: "fl (u * (of_int M * 2 powi k)) \<le> of_int M * 2 powi k"
  proof (cases "u = 0")
    case True
    then show ?thesis using c by (simp add: fl_zero)
  next
    case False
    with u have "0 < u * (of_int M * 2 powi k)" using c by simp
    moreover have "u * (of_int M * 2 powi k) \<le> 1 * (of_int M * 2 powi k)"
      using u(2) c by (intro mult_right_mono) simp_all
    then have "u * (of_int M * 2 powi k) \<le> of_int M * 2 powi k" by simp
    ultimately show ?thesis using M(2) by (intro fl_le_double)
  qed
  from lo hi show ?thesis ..
qed

lemma base_range:
  assumes "0 \<le> u" "u < 1"
  shows "0 \<le> fl (u * fl 0.08) \<and> fl (u * fl 0.08) \<le> 5764607523034235 * 2 powi (-56)"
proof -
  have c: "fl (0.08::real) = of_int 5764607523034235 * 2 powi (-56)" unfolding fl_008 by simp
  have "0 \<le> fl (u * fl 0.08) \<and> fl (u * fl 0.08) \<le> of_int 5764607523034235 * 2 powi (-56)"
    unfolding c by (rule fl_scaled_range [OF assms]) simp_all
  then show ?thesis by simp
qed

lemma spike_range:
  assumes "0 \<le> w" "w < 1"
  shows "0 \<le> fl (w * fl 0.4) \<and> fl (w * fl 0.4) \<le> 7205759403792794 * 2 powi (-54)"
proof -
  have c: "fl (0.4::real) = of_int 7205759403792794 * 2 powi (-54)" unfolding fl_04 by simp
  have "0 \<le> fl (w * fl 0.4) \<and> fl (w * fl 0.4) \<le> of_int 7205759403792794 * 2 powi (-54)"
    unfolding c by (rule fl_scaled_range [OF assms]) simp_all
  then show ?thesis by simp
qed

lemma fl_millis_range:
  assumes "0 \<le> k" "k \<le> 480"
  shows "0 \<le> fl (of_int k / 1000) \<and> fl (of_int k / 1000) \<le> 0.48"
proof -
  have lo: "0 \<le> fl (of_int k / 1000)" using assms(1) by (intro fl_nonneg) simp
  have c: "(8646911284551352 :: real) * 2 powi (-54) \<le> 0.48"
    by (simp add: power_int_def power_divide)
  have hi: "fl (of_int k / 1000) \<le> 0.48"
  proof (cases "k = 480")
    case True
    have "fl (0.48::real) \<le> 0.48" unfolding fl_048 by (rule c)
    moreover have "(of_int k :: real) / 1000 = 0.48" using True by simp
    ultimately show ?thesis by simp
  next
    case False
    show ?thesis
    proof (cases "k = 0")
      case True
      then show ?thesis by (simp add: fl_zero)
    next
      case nz: False
      with assms(1) have pos: "(0::real) < of_int k / 1000" by simp
      from False assms(2) have "k \<le> 479" by simp
      then have "(of_int k :: real) \<le> 479" by (simp only: of_int_le_iff [where 'a = real, symmetric] of_int_numeral)
      then have "(of_int k :: real) / 1000 \<le> of_int 8646911284551352 * 2 powi (-54)"
        by (simp add: power_int_def power_divide)
      from fl_le_double [OF pos this] have "fl (of_int k / 1000) \<le> of_int 8646911284551352 * 2 powi (-54)"
        by simp
      with c show ?thesis by simp
    qed
  qed
  from lo hi show ?thesis ..
qed

lemma py_round3_range:
  assumes "0 \<le> x" and "x * 1000 < 480 + 1/2"
  shows "0 \<le> py_round3 x \<and> py_round3 x \<le> 0.48"
proof -
  have "of_int 0 \<le> x * 1000" using assms(1) by simp
  then have lo: "0 \<le> round_half_even (x * 1000)" by (rule round_half_even_ge)
  have "x * 1000 < of_int 480 + 1/2" using assms(2) by simp
  then have hi: "round_half_even (x * 1000) \<le> 480" by (rule round_half_even_le_half)
  from fl_millis_range [OF lo hi] show ?thesis by (simp add: py_round3_def)
qed

subsection \<open>The sensitivity loop\<close>

lemma prng_random_range:
  "prng_contract G \<Longrightarrow> 0 \<le> fst (random G s) \<and> fst (random G s) < 1"
  by (simp add: prng_contract_def)

lemma prng_randint_range:
  "prng_contract G \<Longrightarrow> a \<le> b \<Longrightarrow> a \<le> fst (randint G s a b) \<and> fst (randint G s a b) \<le> b"
  by (simp add: prng_contract_def)

lemma rounded_base_range:
  assumes "0 \<le> u" "u < 1"
  shows "0 \<le> py_round3 (fl (u * fl 0.08)) \<and> py_round3 (fl (u * fl 0.08)) \<le> 0.48"
proof -
  from base_range [OF assms]
  have b: "0 \<le> fl (u * fl 0.08)" "fl (u * fl 0.08) \<le> 5764607523034235 * 2 powi (-56)"
    by simp_all
  have "(5764607523034235 :: real) * 2 powi (-56) * 1000 < 480 + 1/2"
    by (simp add: power_int_def power_divide)
  with b(2) have "fl (u * fl 0.08) * 1000 < 480 + 1/2" by linarith
  with b(1) show ?thesis by (rule py_round3_range)
qed

lemma rounded_spike_range:
  assumes u: "0 \<le> u" "u < 1" and w: "0 \<le> w" "w < 1"
  shows "0 \<le> py_round3 (fl (fl (u * fl 0.08) + fl (w * fl 0.4))) \<and>
         py_round3 (fl (fl (u * fl 0.08) + fl (w * fl 0.4))) \<le> 0.48"
proof -
  define s where "s = fl (u * fl 0.08) + fl (w * fl 0.4)"
  from base_range [OF u] spike_range [OF w]
  have s: "0 \<le> s" "s \<le> 5764607523034235 * 2 powi (-56) + 7205759403792794 * 2 powi (-54)"
    unfolding s_def by linarith+
  have "(5764607523034235 :: real) * 2 powi (-56) + 7205759403792794 * 2 powi (-54)
          \<le> of_int 8646911284551353 * 2 powi (-54)"
    by (simp add: power_int_def power_divide)
  with s(2) have le: "s \<le> of_int 8646911284551353 * 2 powi (-54)" by linarith
  have lo: "0 \<le> fl s" using s(1) by (rule fl_nonneg)
  have hi: "fl s \<le> of_int 8646911284551353 * 2 powi (-54)"
  proof (cases "s = 0")
    case True
    then show ?thesis by (simp add: fl_zero)
  next
    case False
    with s(1) have "0 < s" by simp
    then show ?thesis using le by (rule fl_le_double) simp
  qed
  have "(of_int 8646911284551353 :: real) * 2 powi (-54) * 1000 < 480 + 1/2"
    by (simp add: power_int_def power_divide)
  with hi have "fl s * 1000 < 480 + 1/2" by linarith
  with lo show ?thesis unfolding s_def [symmetric] by (rule py_round3_range)
qed

lemma spec_layer_error_range:
  assumes G: "prng_contract G"
  shows "0 \<le> fst (spec_layer_error G rnd) \<and> fst (spec_layer_error G rnd) \<le> 0.48"
proof -
  define r1 where "r1 = snd (choice G rnd layer_types)"
  define r3 where "r3 = snd (random G (snd (random G r1)))"
  have u: "0 \<le> fst (random G r1)" "fst (random G r1) < 1"
    using prng_random_range [OF G, of r1] by simp_all
  have w: "0 \<le> fst (random G r3)" "fst (random G r3) < 1"
    using prng_random_range [OF G, of r3] by simp_all
  show ?thesis
    using rounded_base_range [OF u] rounded_spike_range [OF u w]
    by (simp add: spec_layer_error_def Let_def r1_def r3_def)
qed

lemma spec_errors_range:
  assumes G: "prng_contract G"
  shows "list_all (\<lambda>e. 0 \<le> e \<and> e \<le> 0.48) (spec_errors G rnd n)"
proof (induction n arbitrary: rnd)
  case 0
  show ?case by simp
next
  case (Suc n)
  from spec_layer_error_range [OF G, of rnd] Suc.IH [of "snd (spec_layer_error G rnd)"]
  show ?case unfolding spec_errors.simps list.pred_inject by (intro conjI) simp_all
qed

lemma length_spec_errors: "length (spec_errors G rnd n) = n"
  by (induction n arbitrary: rnd) simp_all

lemma sensitivity_step_eq:
  "sensitivity_step G (rnd, layers) i =
     (snd (spec_layer_error G rnd),
      layers @ [[(''layer'', JStr (fst (choice G rnd layer_types) @ ''_'' @ str_int i)),
                 (''error'', JFloat (fst (spec_layer_error G rnd)))]])"
  by (simp add: sensitivity_step_def spec_layer_error_def Let_def split_beta)

lemma foldl_sensitivity_step_errors:
  "map (\<lambda>d. lookup d ''error'') (snd (foldl (sensitivity_step G) (rnd, layers) js)) =
     map (\<lambda>d. lookup d ''error'') layers @
     map (\<lambda>e. Some (JFloat e)) (spec_errors G rnd (length js))"
proof (induction js arbitrary: rnd layers)
  case Nil
  then show ?case by simp
next
  case (Cons j js)
  let ?d = "[(''layer'', JStr (fst (choice G rnd layer_types) @ ''_'' @ str_int j)),
             (''error'', JFloat (fst (spec_layer_error G rnd)))]"
  have "map (\<lambda>d. lookup d ''error'') (snd (foldl (sensitivity_step G) (rnd, layers) (j # js))) =
        map (\<lambda>d. lookup d ''error'')
          (snd (foldl (sensitivity_step G) (snd (spec_layer_error G rnd), layers @ [?d]) js))"
    by (simp add: sensitivity_step_eq)
  also have "\<dots> = map (\<lambda>d. lookup d ''error'') (layers @ [?d]) @
        map (\<lambda>e. Some (JFloat e)) (spec_errors G (snd (spec_layer_error G rnd)) (length js))"
    by (rule Cons.IH)
  also have "\<dots> = map (\<lambda>d. lookup d ''error'') layers @
        map (\<lambda>e. Some (JFloat e)) (spec_errors G rnd (length (j # js)))"
    by (simp add: lookup_def)
  finally show ?case .
qed

lemma get_sensitivity_spec_errors:
  "map (\<lambda>d. lookup d ''error'') (get_sensitivity G job_id) =
     map (\<lambda>e. Some (JFloat e))
       (spec_errors G (snd (randint G (Random G (sensitivity_seed job_id)) 6 12))
          (nat (fst (randint G (Random G (sensitivity_seed job_id)) 6 12))))"
  by (simp add: get_sensitivity_def Let_def split_beta foldl_sensitivity_step_errors)

lemma get_sensitivity_length:
  assumes "prng_contract G"
  shows "int (length (get_sensitivity G job_id)) =
           fst (randint G (Random G (sensitivity_seed job_id)) 6 12)"
proof -
  let ?n = "fst (randint G (Random G (sensitivity_seed job_id)) 6 12)"
  have "length (map (\<lambda>d. lookup d ''error'') (get_sensitivity G job_id)) = nat ?n"
    unfolding get_sensitivity_spec_errors by (simp add: length_spec_errors)
  moreover have "6 \<le> ?n" using prng_randint_range [OF assms, of 6 12] by simp
  ultimately show ?thesis by simp
qed

lemma error_within_lookup:
  "error_within lo hi d \<longleftrightarrow>
     (case lookup d ''error'' of Some (JFloat e) \<Rightarrow> lo \<le> e \<and> e \<le> hi | _ \<Rightarrow> False)"
  by (simp add: error_within_def)

lemma get_sensitivity_errors:
  assumes "prng_contract G"
  shows "list_all (error_within 0 0.48) (get_sensitivity G job_id)"
proof -
  let ?P = "\<lambda>v. case v of Some (JFloat e) \<Rightarrow> (0::real) \<le> e \<and> e \<le> 0.48 | _ \<Rightarrow> False"
  have "list_all ?P (map (\<lambda>e. Some (JFloat e)) (spec_errors G rnd n))" for rnd n
    using spec_errors_range [OF assms, of rnd n] by (simp add: list_all_iff)
  then have "list_all ?P (map (\<lambda>d. lookup d ''error'') (get_sensitivity G job_id))"
    unfolding get_sensitivity_spec_errors .
  then have "list_all (?P \<circ> (\<lambda>d. lookup d ''error'')) (get_sensitivity G job_id)"
    by (simp only: list.pred_map)
  moreover have "error_within 0 0.48 = ?P \<circ> (\<lambda>d. lookup d ''error'')"
    by (rule ext) (simp only: error_within_def comp_def)
  ultimately show ?thesis by (simp only:)
qed

lemma error_within_mono:
  "error_within lo hi d \<Longrightarrow> lo' \<le> lo \<Longrightarrow> hi \<le> hi' \<Longrightarrow> error_within lo' hi' d"
  by (auto simp: error_within_def split: option.splits json.splits)

subsection \<open>A run of the small generator\<close>

text \<open>
  The first two layers of the identifier \<^verbatim>\<open>"f"\<close>: the stream starts the loop in the state
  7724; the first layer takes the base formula and the second the spike formula.
\<close>

lemma fl_eval:
  assumes "2 powi e \<le> x" and "x < 2 powi (e + 1)"
  shows "fl x = of_int (round_half_even (x / 2 powi (e - 52))) * 2 powi (e - 52)"
proof -
  have "(0::real) < 2 powi e" by simp
  with assms(1) have pos: "0 < x" by linarith
  show ?thesis unfolding fl_pos_eq [OF pos] expo_unique [OF assms] ..
qed

lemma lcg_draws:
  "snd (choice lcg s xs) = lcg_next s"
  "random lcg s = (real (lcg_next s) / 65536, lcg_next s)"
  by (simp_all add: lcg_def)

lemma fl_008_value: "fl 0.08 = 5764607523034235 / 72057594037927936"
  unfolding fl_008 by (simp add: power_int_def power_divide)

lemma fl_04_value: "fl 0.4 = 7205759403792794 / 18014398509481984"
  unfolding fl_04 by (simp add: power_int_def power_divide)

lemma lcg_states:
  "lcg_next 7724 = 55086" "lcg_next 55086 = 2756" "lcg_next 2756 = 10166"
  "lcg_next 10166 = 41628" "lcg_next 41628 = 41982" "lcg_next 41982 = 2996"
  "lcg_next 2996 = 28166"
  by (simp_all add: lcg_next_def)

lemma base1: "fl (real 2756 / 65536 * fl 0.08) = 484840647384105 / 144115188075855872"
  unfolding fl_008_value
  by (subst fl_eval [where e = "-9"]) (simp_all add: power_int_def power_divide round_half_even_def)

lemma base2: "fl (real 41982 / 65536 * fl 0.08) = 7385551545166725 / 144115188075855872"
  unfolding fl_008_value
  by (subst fl_eval [where e = "-5"]) (simp_all add: power_int_def power_divide round_half_even_def)

lemma spike2: "fl (real 28166 / 65536 * fl 0.4) = 1548442225396941 / 9007199254740992"
  unfolding fl_04_value
  by (subst fl_eval [where e = "-3"]) (simp_all add: power_int_def power_divide round_half_even_def)

lemma sum2:
  "fl (7385551545166725 / 144115188075855872 + 1548442225396941 / 9007199254740992) =
     8040156787879445 / 36028797018963968"
  by (subst fl_eval [where e = "-3"]) (simp_all add: power_int_def power_divide round_half_even_def)

lemma layer1: "spec_layer_error lcg 7724 = (fl 0.003, 10166)"
proof -
  have "\<not> real 10166 / 65536 < fl 0.08" unfolding fl_008_value by simp
  moreover have "py_round3 (484840647384105 / 144115188075855872) = fl 0.003"
    by (simp add: py_round3_def round_half_even_def)
  ultimately show ?thesis
    unfolding spec_layer_error_def Let_def lcg_draws fst_conv snd_conv lcg_states base1
    by (simp only: if_False)
qed

lemma layer2: "spec_layer_error lcg 10166 = (fl 0.223, 28166)"
proof -
  have "real 2996 / 65536 < fl 0.08" unfolding fl_008_value by simp
  moreover have "py_round3 (8040156787879445 / 36028797018963968) = fl 0.223"
    by (simp add: py_round3_def round_half_even_def)
  ultimately show ?thesis
    unfolding spec_layer_error_def Let_def lcg_draws fst_conv snd_conv lcg_states base2 spike2 sum2
    by (simp only: if_True)
qed

lemma two_layers: "spec_errors lcg 7724 (Suc (Suc n)) = fl 0.003 # fl 0.223 # spec_errors lcg 28166 n"
  by (simp only: spec_errors.simps layer1 layer2 fst_conv snd_conv)

subsection \<open>The graph loop\<close>

lemma str_int_small:
  "str_int 0 = ''0''" "str_int 1 = ''1''" "str_int 2 = ''2''" "str_int 3 = ''3''"
  "str_int 4 = ''4''" "str_int 5 = ''5''" "str_int 6 = ''6''"
  by (simp_all add: str_int_def str_nat.simps digit_char_def)

lemma conv_in_layer_names:
  "\<not> sublist ''Conv'' ''Input''" "sublist ''Conv'' ''Conv_1''" "sublist ''Conv'' ''Conv_2''"
  "\<not> sublist ''Conv'' ''Pool''" "\<not> sublist ''Conv'' ''Attn_1''"
  "\<not> sublist ''Conv'' ''Dense''" "\<not> sublist ''Conv'' ''Output''"
  by (simp_all add: sublist_code)

lemma enumerate_layer_names:
  "py_enumerate layer_names =
     [(0, ''Input''), (1, ''Conv_1''), (2, ''Conv_2''), (3, ''Pool''),
      (4, ''Attn_1''), (5, ''Dense''), (6, ''Output'')]"
  by (simp add: py_enumerate_def layer_names_def)

lemma graph_loop_eq:
  "graph_loop G job_id =
     (let r0 = Random G (graph_seed job_id);
          d1 = random G r0;
          d2 = random G (snd d1)
      in (snd d2,
          [node_dict ''n0'' ''Input'' False 50 100,
           node_dict ''n1'' ''Conv_1'' (fst d1 < 0.25) 270 130,
           node_dict ''n2'' ''Conv_2'' (fst d2 < 0.25) 490 100,
           node_dict ''n3'' ''Pool'' False 710 130,
           node_dict ''n4'' ''Attn_1'' False 930 100,
           node_dict ''n5'' ''Dense'' False 1150 130,
           node_dict ''n6'' ''Output'' False 1370 100],
          [edge_dict 1 ''n1'', edge_dict 2 ''n2'', edge_dict 3 ''n3'',
           edge_dict 4 ''n4'', edge_dict 5 ''n5'', edge_dict 6 ''n6'']))"
  by (simp add: graph_loop_def enumerate_layer_names graph_step_def Let_def split_beta
        str_int_small conv_in_layer_names x_start_def y_start_def x_gap_def)

lemma graph_nodes_eq:
  "graph_nodes G job_id =
     [node_dict ''n0'' ''Input'' False 50 100,
      node_dict ''n1'' ''Conv_1'' (fst (random G (Random G (graph_seed job_id))) < 0.25) 270 130,
      node_dict ''n2'' ''Conv_2''
        (fst (random G (snd (random G (Random G (graph_seed job_id))))) < 0.25) 490 100,
      node_dict ''n3'' ''Pool'' False 710 130,
      node_dict ''n4'' ''Attn_1'' False 930 100,
      node_dict ''n5'' ''Dense'' False 1150 130,
      node_dict ''n6'' ''Output'' False 1370 100]"
  by (simp add: graph_nodes_def graph_loop_eq Let_def)

lemma graph_edges_eq:
  "graph_edges G job_id =
     [edge_dict 1 ''n1'', edge_dict 2 ''n2'', edge_dict 3 ''n3'',
      edge_dict 4 ''n4'', edge_dict 5 ''n5'', edge_dict 6 ''n6'']"
  by (simp add: graph_edges_def graph_loop_eq Let_def)

lemma node_dict_fields:
  "keys (node_dict i l f x y) = [''id'', ''data'', ''position'', ''style'']"
  "lookup (node_dict i l f x y) ''id'' = Some (JStr i)"
  "lookup (node_dict i l f x y) ''position'' = Some (JObj [(''x'', JInt x), (''y'', JInt y)])"
  "lookup (node_dict i l f x y) ''style'' = Some (JObj [])"
  "node_label (node_dict i l f x y) = Some (JStr l)"
  "node_fused (node_dict i l f x y) = Some (JBool f)"
  "node_x (node_dict i l f x y) = Some (JInt x)"
  "without_fused (node_dict i l f x y) = without_fused (node_dict i l False x y)"
  by (simp_all add: node_dict_def keys_def lookup_def node_label_def node_fused_def node_x_def
        without_fused_def)

lemma edge_dict_fields:
  "keys (edge_dict idx t) = [''id'', ''source'', ''target'', ''animated'']"
  "lookup (edge_dict idx t) ''id'' = Some (JStr (''e'' @ str_int (idx - 1)))"
  "lookup (edge_dict idx t) ''source'' = Some (JStr (''n'' @ str_int (idx - 1)))"
  "lookup (edge_dict idx t) ''target'' = Some (JStr t)"
  "lookup (edge_dict idx t) ''animated'' = Some (JBool False)"
  by (simp_all add: edge_dict_def keys_def lookup_def)

section \<open>Seed derivation: the claims\<close>

text \<open>
  Claim C2. For every identifier, the empty one included, the seed of the sensitivity
  endpoint is 1 times, and the seed of the graph endpoint 7 times, the sum of the
  character codes of the identifier; the empty identifier gives the seed 0 at both
  endpoints. Both seeds are total functions of the identifier alone.
\<close>

theorem seed_derivation:
  "sensitivity_seed job_id = spec_derive_seed 1 job_id \<and>
   graph_seed job_id = spec_derive_seed 7 job_id \<and>
   sensitivity_seed [] = 0 \<and> graph_seed [] = 0"
  by (simp add: sensitivity_seed_def graph_seed_def spec_derive_seed_def char_code_sum py_sum_Nil)

text \<open>
  Claim C7. When the sum of the character codes of an identifier is not zero, the seed
  of the sensitivity endpoint and the seed of the graph endpoint are different integers.
\<close>

theorem seeds_differ:
  assumes "(\<Sum>c\<leftarrow>job_id. int c) \<noteq> 0"
  shows "sensitivity_seed job_id \<noteq> graph_seed job_id"
  using assms by (simp add: sensitivity_seed_def graph_seed_def char_code_sum)

text \<open>The identifier \<^verbatim>\<open>"abc"\<close>: the codes 97, 98 and 99 give the seeds 294 and 2058.\<close>

theorem seeds_differ_witness:
  "(\<Sum>c\<leftarrow>[97, 98, 99]. int c) = 294 \<and> sensitivity_seed [97, 98, 99] = 294 \<and>
   graph_seed [97, 98, 99] = 2058 \<and> sensitivity_seed [97, 98, 99] \<noteq> graph_seed [97, 98, 99]"
  using seeds_differ [of "[97, 98, 99]"]
  by (simp add: sensitivity_seed_def graph_seed_def py_sum_def ord_def)

section \<open>The sensitivity endpoint: the claims\<close>

text \<open>
  Claim C1. Two calls of the sensitivity endpoint with the same identifier return the
  same sequence: the same length, the same layer names in the same order and the same
  error values. The endpoint is a function of the generator and the identifier, and it
  reads the identifier only through the sum of its character codes, so the same holds
  of any two identifiers with the same sum.
\<close>

theorem sensitivity_deterministic:
  assumes "(\<Sum>c\<leftarrow>S. int c) = (\<Sum>c\<leftarrow>S'. int c)"
  shows "get_sensitivity G S = get_sensitivity G S' \<and>
         length (get_sensitivity G S) = length (get_sensitivity G S') \<and>
         map (\<lambda>d. lookup d ''layer'') (get_sensitivity G S) =
           map (\<lambda>d. lookup d ''layer'') (get_sensitivity G S') \<and>
         map (\<lambda>d. lookup d ''error'') (get_sensitivity G S) =
           map (\<lambda>d. lookup d ''error'') (get_sensitivity G S')"
proof -
  have "sensitivity_seed S = sensitivity_seed S'"
    using assms by (simp add: sensitivity_seed_def char_code_sum)
  then have "get_sensitivity G S = get_sensitivity G S'"
    by (simp add: get_sensitivity_def)
  then show ?thesis by simp
qed

text \<open>The identifiers \<^verbatim>\<open>"ab"\<close> and \<^verbatim>\<open>"ba"\<close>: two strings, one sum, one sequence.\<close>

theorem sensitivity_deterministic_witness:
  "(\<Sum>c\<leftarrow>[97, 98]. int c) = (\<Sum>c\<leftarrow>[98, 97]. int c) \<and> [97, 98] \<noteq> [98, 97 :: nat] \<and>
   get_sensitivity lcg [97, 98] = get_sensitivity lcg [98, 97]"
  using sensitivity_deterministic [of "[97, 98]" "[98, 97]" lcg] by simp

text \<open>
  Claim C3. The sequence the sensitivity endpoint returns has between 6 and 12 records,
  as many as the first draw of the stream says, and the error of every record lies in
  \<open>[0, 1]\<close>. The errors are, in order, the values the two formulas give on the draws the
  stream makes for each layer: the rounded base value, or the rounded sum of base value
  and spike when the spike test succeeds, with nothing applied after the rounding.
\<close>

theorem sensitivity_length_and_errors:
  assumes "prng_contract G"
  shows "6 \<le> length (get_sensitivity G job_id) \<and> length (get_sensitivity G job_id) \<le> 12 \<and>
         int (length (get_sensitivity G job_id)) =
           fst (randint G (Random G (sensitivity_seed job_id)) 6 12) \<and>
         list_all (error_within 0 1) (get_sensitivity G job_id) \<and>
         map (\<lambda>d. lookup d ''error'') (get_sensitivity G job_id) =
           map (\<lambda>e. Some (JFloat e))
             (spec_errors G (snd (randint G (Random G (sensitivity_seed job_id)) 6 12))
                (length (get_sensitivity G job_id)))"
proof -
  let ?n = "fst (randint G (Random G (sensitivity_seed job_id)) 6 12)"
  have n: "6 \<le> ?n \<and> ?n \<le> 12"
    using prng_randint_range [OF assms, of 6 12] by simp
  note len = get_sensitivity_length [OF assms, of job_id]
  have "list_all (error_within 0 1) (get_sensitivity G job_id)"
    using get_sensitivity_errors [OF assms, of job_id]
    by (simp add: list_all_iff error_within_mono [where lo = 0 and hi = "0.48"])
  moreover have "nat ?n = length (get_sensitivity G job_id)" using len by simp
  ultimately show ?thesis
    using n len get_sensitivity_spec_errors [of G job_id] by simp
qed

text \<open>
  The identifier \<^verbatim>\<open>"f"\<close> on the small generator: nine records, the first with the base
  error 0.003 and the second with the spike error 0.223.
\<close>

theorem sensitivity_length_and_errors_witness:
  "prng_contract lcg \<and> length (get_sensitivity lcg [102]) = 9 \<and>
   list_all (error_within 0 1) (get_sensitivity lcg [102]) \<and>
   take 2 (map (\<lambda>d. lookup d ''error'') (get_sensitivity lcg [102])) =
     [Some (JFloat (fl 0.003)), Some (JFloat (fl 0.223))]"
proof -
  have draw: "randint lcg (Random lcg (sensitivity_seed [102])) 6 12 = (9, 7724)"
    by (simp add: sensitivity_seed_def py_sum_def ord_def lcg_def lcg_next_def)
  have nine: "(9::nat) = Suc (Suc 7)" by simp
  from sensitivity_length_and_errors [OF lcg_contract, of "[102]"]
  have len: "length (get_sensitivity lcg [102]) = 9"
    and range: "list_all (error_within 0 1) (get_sensitivity lcg [102])"
    and errs: "map (\<lambda>d. lookup d ''error'') (get_sensitivity lcg [102]) =
      map (\<lambda>e. Some (JFloat e)) (spec_errors lcg 7724 9)"
    by (simp_all add: draw)
  have "take 2 (map (\<lambda>d. lookup d ''error'') (get_sensitivity lcg [102])) =
     [Some (JFloat (fl 0.003)), Some (JFloat (fl 0.223))]"
    unfolding errs nine two_layers by simp
  with lcg_contract len range show ?thesis by simp
qed

text \<open>
  Claim C9. Every error the sensitivity endpoint returns is at most 0.48: the base
  value is below 0.08 and the spike below 0.4, and rounding their sum to three decimal
  places cannot pass 0.48.
\<close>

theorem sensitivity_errors_at_most_048:
  assumes "prng_contract G"
  shows "list_all (error_within 0 0.48) (get_sensitivity G job_id)"
  by (rule get_sensitivity_errors [OF assms])

text \<open>The empty identifier on the small generator: a sequence that is not empty.\<close>

theorem sensitivity_errors_at_most_048_witness:
  "prng_contract lcg \<and> get_sensitivity lcg [] \<noteq> [] \<and>
   list_all (error_within 0 0.48) (get_sensitivity lcg [])"
proof -
  have "fst (randint lcg (Random lcg (sensitivity_seed [])) 6 12) = 10"
    by (simp add: sensitivity_seed_def py_sum_def ord_def lcg_def lcg_next_def)
  with get_sensitivity_length [OF lcg_contract, of "[]"]
  have "get_sensitivity lcg [] \<noteq> []" by auto
  with sensitivity_errors_at_most_048 [OF lcg_contract, of "[]"] lcg_contract
  show ?thesis by simp
qed

section \<open>The upload endpoint: the claims\<close>

text \<open>
  Claim C8. Called with the required file only, the upload endpoint returns its
  response, in which \<^verbatim>\<open>calibration_file\<close> and \<^verbatim>\<open>metadata\<close> are both null. The endpoint
  has no branch that raises.
\<close>

theorem upload_required_file_only:
  "upload file None None =
     [(''status'', JStr ''ok''),
      (''file'', JObj [(''filename'', json_of_optional (filename file)),
                       (''content_type'', json_of_optional (content_type file))]),
      (''calibration_file'', JNull),
      (''metadata'', JNull)] \<and>
   lookup (upload file None None) ''calibration_file'' = Some JNull \<and>
   lookup (upload file None None) ''metadata'' = Some JNull"
  by (simp add: upload_def json_of_optional_def lookup_def)

section \<open>The graph endpoint: the claims\<close>


text \<open>
  Claim C5. In every iteration of the graph loop: when the label contains \<^verbatim>\<open>Conv\<close>, one
  value is drawn from the stream and the node is fused exactly when that value is below
  0.25; otherwise the node is not fused and the stream is left as it was. Over the whole
  catalog this makes two draws, for \<^verbatim>\<open>Conv_1\<close> and \<^verbatim>\<open>Conv_2\<close>.
\<close>

theorem fusion_draw:
  "fst (graph_step G (rnd, nodes, edges) (idx, lname)) =
     (if sublist ''Conv'' lname then snd (random G rnd) else rnd) \<and>
   node_fused (last (fst (snd (graph_step G (rnd, nodes, edges) (idx, lname))))) =
     Some (JBool (sublist ''Conv'' lname \<and> fst (random G rnd) < 0.25)) \<and>
   fst (graph_loop G job_id) = snd (random G (snd (random G (Random G (graph_seed job_id))))) \<and>
   map node_fused (graph_nodes G job_id) =
     map (\<lambda>b. Some (JBool b))
       [False,
        fst (random G (Random G (graph_seed job_id))) < 0.25,
        fst (random G (snd (random G (Random G (graph_seed job_id))))) < 0.25,
        False, False, False, False]"
  by (simp add: graph_step_def Let_def split_beta node_dict_fields graph_loop_eq graph_nodes_eq)

text \<open>
  Claim C6, as stated: every edge has exactly the keys \<^verbatim>\<open>id\<close>, \<^verbatim>\<open>source\<close> and \<^verbatim>\<open>target\<close>.
  The first edge of the graph of \<^verbatim>\<open>"abc"\<close> has a fourth key, \<^verbatim>\<open>animated\<close>, which line 76
  writes into every edge.
\<close>

theorem edge_shape_counterexample:
  "\<not> spec_edge_shape (hd (graph_edges lcg [97, 98, 99]))"
proof
  assume "spec_edge_shape (hd (graph_edges lcg [97, 98, 99]))"
  then have "set (keys (edge_dict 1 ''n1'')) = {''id'', ''source'', ''target''}"
    by (simp add: graph_edges_eq spec_edge_shape_def)
  moreover have "''animated'' \<in> set (keys (edge_dict 1 ''n1''))"
    by (simp add: edge_dict_fields)
  ultimately have "''animated'' \<in> {''id'', ''source'', ''target''}"
    by simp
  then show False by simp
qed

text \<open>
  Claim C6, amended. Every edge has exactly the keys \<^verbatim>\<open>id\<close>, \<^verbatim>\<open>source\<close>, \<^verbatim>\<open>target\<close> and
  \<^verbatim>\<open>animated\<close>; the first three are strings and \<^verbatim>\<open>animated\<close> is false; the source and the
  target of every edge are ids of nodes of the returned node list.
\<close>

theorem edge_shape:
  "map keys (graph_edges G job_id) = replicate 6 [''id'', ''source'', ''target'', ''animated''] \<and>
   list_all (\<lambda>e. is_string (lookup e ''id'') \<and> is_string (lookup e ''source'') \<and>
                  is_string (lookup e ''target'') \<and> lookup e ''animated'' = Some (JBool False))
     (graph_edges G job_id) \<and>
   set (map (\<lambda>e. lookup e ''source'') (graph_edges G job_id)) \<subseteq>
     set (map (\<lambda>d. lookup d ''id'') (graph_nodes G job_id)) \<and>
   set (map (\<lambda>e. lookup e ''target'') (graph_edges G job_id)) \<subseteq>
     set (map (\<lambda>d. lookup d ''id'') (graph_nodes G job_id))"
  by (simp add: graph_nodes_eq graph_edges_eq node_dict_fields edge_dict_fields is_string_def
        str_int_small numeral_eq_Suc)

text \<open>
  Claim C10. The graphs of any two identifiers have the same edge list and the same nodes
  up to the \<^verbatim>\<open>fused\<close> flags: with the flag left out the node lists are equal, and the
  nodes other than the second and the third, which are the ones labelled \<^verbatim>\<open>Conv_1\<close> and
  \<^verbatim>\<open>Conv_2\<close>, are equal with their flags.
\<close>

theorem graph_identifier_independence:
  "graph_edges G S = graph_edges G S' \<and>
   map without_fused (graph_nodes G S) = map without_fused (graph_nodes G S') \<and>
   hd (graph_nodes G S) = hd (graph_nodes G S') \<and>
   drop 3 (graph_nodes G S) = drop 3 (graph_nodes G S') \<and>
   map node_label (take 2 (tl (graph_nodes G S))) = [Some (JStr ''Conv_1''), Some (JStr ''Conv_2'')] \<and>
   keys (get_graph G S) = keys (get_graph G S')"
  by (simp add: graph_nodes_eq graph_edges_eq node_dict_fields(8) [of _ _ "_ < _"]
        node_dict_fields(5) get_graph_def keys_def)

end
